theory Spec2Isabelle
  imports Complex_Main "HOL-Library.DAList"
begin

section \<open>Outcomes of a call\<close>

text \<open>
  The Go functions of the repository return no error values, but a call can fail to
  return in two ways that the locking code makes possible: \<open>Lock\<close> on a mutex that is
  held waits for a release, and unlocking a mutex that is not held is a fatal runtime
  error. Both are values of the model: a call returns \<open>Inr\<close> of its results and of the
  updated state, or \<open>Inl\<close> of the reason why it does not return.

  The model is sequential: it follows one goroutine through one call. The lock state
  at the start of a call is a parameter; inside the call the only goroutine that can
  release a lock taken by the call is the caller itself, so a \<open>Lock\<close> that finds the
  mutex held by the caller never returns.
\<close>

datatype failure = Blocks_forever | Fatal_error

subsection \<open>\<open>sync.RWMutex\<close>\<close>

text \<open>
  A reader/writer mutex: at most one writer, or any number of readers. It is not
  reentrant. The zero value is unlocked.
\<close>

record RWMutex =
  writer :: bool
  readers :: nat

definition unlocked :: RWMutex where
  "unlocked = \<lparr>writer = False, readers = 0\<rparr>"

definition Lock :: "RWMutex \<Rightarrow> failure + RWMutex" where
  "Lock m = (if writer m \<or> 0 < readers m then Inl Blocks_forever
             else Inr (m\<lparr>writer := True\<rparr>))"

definition Unlock :: "RWMutex \<Rightarrow> failure + RWMutex" where
  "Unlock m = (if writer m then Inr (m\<lparr>writer := False\<rparr>) else Inl Fatal_error)"

definition RLock :: "RWMutex \<Rightarrow> failure + RWMutex" where
  "RLock m = (if writer m then Inl Blocks_forever
              else Inr (m\<lparr>readers := Suc (readers m)\<rparr>))"

definition RUnlock :: "RWMutex \<Rightarrow> failure + RWMutex" where
  "RUnlock m = (case readers m of 0 \<Rightarrow> Inl Fatal_error
                | Suc n \<Rightarrow> Inr (m\<lparr>readers := n\<rparr>))"

section \<open>The key-value store (\<open>LunarDB\<close>, main.go)\<close>

text \<open>
  A Go \<open>map[string]string\<close> is a finite map with unique keys whose \<open>range\<close> visits
  every entry once, in an order the language leaves open. It is modelled as an
  association list with distinct keys (\<open>DAList\<close>): assignment is \<open>DAList.update\<close>,
  \<open>delete\<close> is \<open>DAList.delete\<close>, indexing is \<open>DAList.lookup\<close>, and \<open>range\<close> visits the
  entries in list order, which is one of the admissible orders. No theorem below
  depends on that order.
\<close>

record LunarDB =
  data :: "(string, string) alist"
  mu :: RWMutex

definition NewLunarDB :: LunarDB where
  "NewLunarDB = \<lparr>data = DAList.empty, mu = unlocked\<rparr>"

text \<open>\<open>value, exists := m[key]\<close>: the zero value \<open>""\<close> when the key is absent.\<close>

definition index2 :: "(string, string) alist \<Rightarrow> string \<Rightarrow> string \<times> bool" where
  "index2 m key = (case DAList.lookup m key of None \<Rightarrow> ('''', False)
                   | Some v \<Rightarrow> (v, True))"

text \<open>
  \<open>Set\<close>: \<open>db.mu.Lock(); defer db.mu.Unlock(); db.data[key] = value\<close>.
\<close>

definition Set :: "LunarDB \<Rightarrow> string \<Rightarrow> string \<Rightarrow> failure + LunarDB" where
  "Set db key val =
     (case Lock (LunarDB.mu db) of Inl e \<Rightarrow> Inl e
      | Inr m \<Rightarrow>
          let db1 = db\<lparr>LunarDB.mu := m\<rparr>;
              db2 = db1\<lparr>data := DAList.update key val (data db1)\<rparr>
          in (case Unlock (LunarDB.mu db2) of Inl e \<Rightarrow> Inl e
              | Inr m' \<Rightarrow> Inr (db2\<lparr>LunarDB.mu := m'\<rparr>)))"

text \<open>
  \<open>Get\<close>: \<open>db.mu.RLock(); defer db.mu.RUnlock(); value, exists := db.data[key];
  return value, exists\<close>.
\<close>

definition Get :: "LunarDB \<Rightarrow> string \<Rightarrow> failure + ((string \<times> bool) \<times> LunarDB)" where
  "Get db key =
     (case RLock (LunarDB.mu db) of Inl e \<Rightarrow> Inl e
      | Inr m \<Rightarrow>
          let db1 = db\<lparr>LunarDB.mu := m\<rparr>;
              r = index2 (data db1) key
          in (case RUnlock (LunarDB.mu db1) of Inl e \<Rightarrow> Inl e
              | Inr m' \<Rightarrow> Inr (r, db1\<lparr>LunarDB.mu := m'\<rparr>)))"

text \<open>
  \<open>Del\<close>: under the write lock, \<open>_, exists := db.data[key]; if exists { delete(db.data,
  key) }; return exists\<close>.
\<close>

definition Del :: "LunarDB \<Rightarrow> string \<Rightarrow> failure + (bool \<times> LunarDB)" where
  "Del db key =
     (case Lock (LunarDB.mu db) of Inl e \<Rightarrow> Inl e
      | Inr m \<Rightarrow>
          let db1 = db\<lparr>LunarDB.mu := m\<rparr>;
              exists = snd (index2 (data db1) key);
              db2 = (if exists then db1\<lparr>data := DAList.delete key (data db1)\<rparr> else db1)
          in (case Unlock (LunarDB.mu db2) of Inl e \<Rightarrow> Inl e
              | Inr m' \<Rightarrow> Inr (exists, db2\<lparr>LunarDB.mu := m'\<rparr>)))"

text \<open>
  \<open>Keys\<close>: under the read lock, \<open>keys := make([]string, 0, len(db.data)); for k := range
  db.data { keys = append(keys, k) }; return keys\<close>. The loop is a fold over the
  entries with the slice as accumulator.
\<close>

definition Keys :: "LunarDB \<Rightarrow> failure + (string list \<times> LunarDB)" where
  "Keys db =
     (case RLock (LunarDB.mu db) of Inl e \<Rightarrow> Inl e
      | Inr m \<Rightarrow>
          let db1 = db\<lparr>LunarDB.mu := m\<rparr>;
              keys = fold (\<lambda>(k, _) keys. keys @ [k]) (DAList.impl_of (data db1)) []
          in (case RUnlock (LunarDB.mu db1) of Inl e \<Rightarrow> Inl e
              | Inr m' \<Rightarrow> Inr (keys, db1\<lparr>LunarDB.mu := m'\<rparr>)))"

text \<open>A sequence of read calls, for the frame property of \<open>Get\<close> and \<open>Keys\<close>.\<close>

datatype read_call = Call_Get string | Call_Keys

datatype read_result = Got string bool | Listed "string list"

fun read_calls :: "LunarDB \<Rightarrow> read_call list \<Rightarrow> failure + (read_result list \<times> LunarDB)" where
  "read_calls db [] = Inr ([], db)"
| "read_calls db (Call_Get key # cs) =
     (case Get db key of Inl e \<Rightarrow> Inl e
      | Inr ((v, found), db1) \<Rightarrow>
          (case read_calls db1 cs of Inl e \<Rightarrow> Inl e
           | Inr (rs, db2) \<Rightarrow> Inr (Got v found # rs, db2)))"
| "read_calls db (Call_Keys # cs) =
     (case Keys db of Inl e \<Rightarrow> Inl e
      | Inr (ks, db1) \<Rightarrow>
          (case read_calls db1 cs of Inl e \<Rightarrow> Inl e
           | Inr (rs, db2) \<Rightarrow> Inr (Listed ks # rs, db2)))"

section \<open>The token bucket (\<open>rate.Limiter\<close>)\<close>

text \<open>
  The registry stores and hands out pointers to \<open>rate.Limiter\<close> objects of the package
  \<open>golang.org/x/time/rate\<close>, whose code is not part of the repository. Timestamps are
  \<open>time.Time\<close> values, counted in nanoseconds from the zero time; durations are
  nanoseconds, as \<open>time.Duration\<close> is.
\<close>

text \<open>Modelled from the spec: the \<open>TokenBucket\<close> data (the fields of \<open>rate.Limiter\<close>, which
  the repository imports): a refill rate in tokens per second, a burst capacity, the
  current token count, a real number, and the last-refill timestamp.
\<close>

record TokenBucket =
  rate :: real
  burst :: int
  tokens :: real
  last_refill :: int

text \<open>Modelled from the spec: \<open>rate.NewLimiter(r, b)\<close>, the fresh bucket configured with
  a rate and a burst. It starts full, and it has never been refilled: its last-refill
  timestamp is the zero time.
\<close>

definition NewLimiter :: "real \<Rightarrow> int \<Rightarrow> TokenBucket" where
  "NewLimiter r b = \<lparr>rate = r, burst = b, tokens = real_of_int b, last_refill = 0\<rparr>"

text \<open>Modelled from the spec: \<open>Allow()\<close> of \<open>rate.Limiter\<close>, called when the clock reads
  \<open>now\<close>. It advances the token count by rate times the time elapsed since the last
  refill, capped at the burst; if the resulting count is at least 1 it subtracts 1 and
  admits; otherwise it rejects and leaves the count as refilled.
\<close>

definition Allow :: "TokenBucket \<Rightarrow> int \<Rightarrow> bool \<times> TokenBucket" where
  "Allow b now =
     (let elapsed = real_of_int (now - last_refill b) / 1000000000;
          refilled = min (real_of_int (TokenBucket.burst b))
                         (tokens b + TokenBucket.rate b * elapsed);
          b1 = b\<lparr>tokens := refilled, last_refill := now\<rparr>
      in if 1 \<le> refilled then (True, b1\<lparr>tokens := refilled - 1\<rparr>) else (False, b1))"

text \<open>The buckets reached after each of a sequence of \<open>Allow()\<close> calls, with the answers.\<close>

fun Allow_calls :: "TokenBucket \<Rightarrow> int list \<Rightarrow> (bool \<times> TokenBucket) list" where
  "Allow_calls b [] = []"
| "Allow_calls b (t # ts) = Allow b t # Allow_calls (snd (Allow b t)) ts"

subsection \<open>Limiter objects and pointers to them\<close>

text \<open>
  \<open>*rate.Limiter\<close> is a pointer: two callers that hold the same pointer consume from the
  same bucket. The objects live in a heap addressed by natural numbers; allocation
  takes the next free address. Go pointers never dangle, so the heap is a total
  function and the cells that were never allocated hold the zero value.
\<close>

record heap =
  cells :: "nat \<Rightarrow> TokenBucket"
  next_free :: nat

definition empty_heap :: heap where
  "empty_heap = \<lparr>cells = (\<lambda>_. \<lparr>rate = 0, burst = 0, tokens = 0, last_refill = 0\<rparr>),
                   next_free = 0\<rparr>"

text \<open>
  \<open>alloc_Limiter\<close> is \<open>rate.NewLimiter\<close> as the code calls it, returning a pointer to a new
  object; \<open>Allow_at\<close> is \<open>Allow()\<close> called through a pointer, and \<open>Allow_calls_at\<close> a
  sequence of such calls with their answers.
\<close>

definition alloc_Limiter :: "real \<Rightarrow> int \<Rightarrow> heap \<Rightarrow> nat \<times> heap" where
  "alloc_Limiter r b h =
     (next_free h,
      h\<lparr>cells := (cells h)(next_free h := NewLimiter r b), next_free := Suc (next_free h)\<rparr>)"

definition Allow_at :: "nat \<Rightarrow> heap \<Rightarrow> int \<Rightarrow> bool \<times> heap" where
  "Allow_at l h now =
     (let (ok, b) = Allow (cells h l) now in (ok, h\<lparr>cells := (cells h)(l := b)\<rparr>))"

fun Allow_calls_at :: "nat \<Rightarrow> heap \<Rightarrow> int list \<Rightarrow> bool list \<times> heap" where
  "Allow_calls_at l h [] = ([], h)"
| "Allow_calls_at l h (t # ts) =
     (let (ok, h1) = Allow_at l h t; (oks, h2) = Allow_calls_at l h1 ts in (ok # oks, h2))"

section \<open>The registry of clients (\<open>IPRateLimiter\<close>, package middleware)\<close>

record Client =
  limiter :: nat
  lastSeen :: int

record IPRateLimiter =
  clients :: "(string, Client) alist"
  mu :: RWMutex
  rate :: real
  burst :: int
  expiration :: int

text \<open>\<open>time.Hour\<close>, \<open>time.Minute\<close> and \<open>time.Second\<close>, in nanoseconds.\<close>

definition Hour :: int where
  "Hour = 3600 * 1000000000"

definition Minute :: int where
  "Minute = 60 * 1000000000"

definition Second :: int where
  "Second = 1000000000"

definition NewIPRateLimiter :: "real \<Rightarrow> int \<Rightarrow> IPRateLimiter" where
  "NewIPRateLimiter r b =
     \<lparr>clients = DAList.empty, mu = unlocked, rate = r, burst = b, expiration = 1 * Hour\<rparr>"

text \<open>
  \<open>AddClient\<close>: \<open>limiter := rate.NewLimiter(rl.rate, rl.burst); rl.mu.Lock();
  rl.clients[ip] = &Client{limiter, time.Now()}; rl.mu.Unlock(); return limiter\<close>.
  The \<open>Client\<close> struct is reached only through the map, so it is stored in the map by
  value; \<open>now\<close> is the reading of \<open>time.Now()\<close>.
\<close>

definition AddClient ::
  "heap \<Rightarrow> IPRateLimiter \<Rightarrow> int \<Rightarrow> string \<Rightarrow> failure + (nat \<times> heap \<times> IPRateLimiter)" where
  "AddClient h rl now ip =
     (let (l, h1) = alloc_Limiter (IPRateLimiter.rate rl) (IPRateLimiter.burst rl) h
      in (case Lock (IPRateLimiter.mu rl) of Inl e \<Rightarrow> Inl e
          | Inr m \<Rightarrow>
              let rl1 = rl\<lparr>IPRateLimiter.mu := m\<rparr>;
                  rl2 = rl1\<lparr>clients :=
                          DAList.update ip \<lparr>limiter = l, lastSeen = now\<rparr> (clients rl1)\<rparr>
              in (case Unlock (IPRateLimiter.mu rl2) of Inl e \<Rightarrow> Inl e
                  | Inr m' \<Rightarrow> Inr (l, h1, rl2\<lparr>IPRateLimiter.mu := m'\<rparr>))))"

text \<open>
  \<open>GetLimiter\<close>: \<open>rl.mu.Lock(); defer rl.mu.Unlock(); client, exists := rl.clients[ip];
  if !exists { return rl.AddClient(ip) }; client.lastSeen = time.Now(); return
  client.limiter\<close>. The call of \<open>AddClient\<close> is made with the lock of \<open>GetLimiter\<close>
  held; the deferred \<open>Unlock\<close> runs when the function returns, on either path.
\<close>

definition GetLimiter ::
  "heap \<Rightarrow> IPRateLimiter \<Rightarrow> int \<Rightarrow> string \<Rightarrow> failure + (nat \<times> heap \<times> IPRateLimiter)" where
  "GetLimiter h rl now ip =
     (case Lock (IPRateLimiter.mu rl) of Inl e \<Rightarrow> Inl e
      | Inr m \<Rightarrow>
          let rl1 = rl\<lparr>IPRateLimiter.mu := m\<rparr>
          in (case DAList.lookup (clients rl1) ip of
                None \<Rightarrow>
                  (case AddClient h rl1 now ip of Inl e \<Rightarrow> Inl e
                   | Inr (l, h1, rl2) \<Rightarrow>
                       (case Unlock (IPRateLimiter.mu rl2) of Inl e \<Rightarrow> Inl e
                        | Inr m' \<Rightarrow> Inr (l, h1, rl2\<lparr>IPRateLimiter.mu := m'\<rparr>)))
              | Some client \<Rightarrow>
                  let rl2 = rl1\<lparr>clients :=
                              DAList.update ip (client\<lparr>lastSeen := now\<rparr>) (clients rl1)\<rparr>
                  in (case Unlock (IPRateLimiter.mu rl2) of Inl e \<Rightarrow> Inl e
                      | Inr m' \<Rightarrow>
                          Inr (Client.limiter client, h, rl2\<lparr>IPRateLimiter.mu := m'\<rparr>))))"

text \<open>
  \<open>CleanupStaleClients\<close>: under the lock, \<open>for ip, client := range rl.clients { if
  time.Since(client.lastSeen) > rl.expiration { delete(rl.clients, ip) } }\<close>. The loop
  deletes only the entry it is visiting, so it visits every entry of the map as it was
  when the loop began: a fold over those entries with the map as accumulator. The
  clock is read at every entry: \<open>now_at ip\<close> is the reading when the entry of \<open>ip\<close> is
  visited. \<open>time.Since\<close> saturates at the ends of the 64-bit range, which does not
  change the comparison with an expiration inside the range.
\<close>

definition sweep_step ::
  "(string \<Rightarrow> int) \<Rightarrow> int \<Rightarrow> string \<times> Client \<Rightarrow>
   (string, Client) alist \<Rightarrow> (string, Client) alist" where
  "sweep_step now_at expiry = (\<lambda>(ip, client) cs.
     if now_at ip - lastSeen client > expiry then DAList.delete ip cs else cs)"

definition CleanupStaleClients ::
  "IPRateLimiter \<Rightarrow> (string \<Rightarrow> int) \<Rightarrow> failure + IPRateLimiter" where
  "CleanupStaleClients rl now_at =
     (case Lock (IPRateLimiter.mu rl) of Inl e \<Rightarrow> Inl e
      | Inr m \<Rightarrow>
          let rl1 = rl\<lparr>IPRateLimiter.mu := m\<rparr>;
              rl2 = rl1\<lparr>clients := fold (sweep_step now_at (expiration rl1))
                                         (DAList.impl_of (clients rl1)) (clients rl1)\<rparr>
          in (case Unlock (IPRateLimiter.mu rl2) of Inl e \<Rightarrow> Inl e
              | Inr m' \<Rightarrow> Inr (rl2\<lparr>IPRateLimiter.mu := m'\<rparr>)))"

section \<open>The admission gate (\<open>RateLimitMiddleware\<close>)\<close>

text \<open>
  The state a request handler can reach: the heap of limiter objects, the global
  \<open>limiter\<close> of package middleware and the global \<open>db\<close> of package main.
\<close>

record world =
  heap :: heap
  limiter :: IPRateLimiter
  db :: LunarDB

text \<open>\<open>var limiter = NewIPRateLimiter(1, 5)\<close> and \<open>db = NewLunarDB()\<close>, at start-up.\<close>

definition initial_world :: world where
  "initial_world = \<lparr>heap = empty_heap, limiter = NewIPRateLimiter 1 5, db = NewLunarDB\<rparr>"

text \<open>
  Of an \<open>http.Request\<close> the handler reads \<open>r.RemoteAddr\<close> and
  \<open>r.Header.Get("X-Forwarded-For")\<close>, which is \<open>""\<close> when the header is absent. A
  response is a status code and a body.
\<close>

record request =
  RemoteAddr :: string
  X_Forwarded_For :: string

datatype response = Response nat string

definition StatusTooManyRequests :: nat where
  "StatusTooManyRequests = 429"

text \<open>\<open>http.Error(w, msg, code)\<close> replies with the code and the message on a line.\<close>

definition http_Error :: "string \<Rightarrow> nat \<Rightarrow> response" where
  "http_Error msg code = Response code (msg @ [CHR 0x0A])"

text \<open>
  Lines 88 to 92 of the handler: \<open>ip := r.RemoteAddr; if forwardedIP :=
  r.Header.Get("X-Forwarded-For"); forwardedIP != "" { ip = forwardedIP }\<close>.
\<close>

definition client_ip :: "request \<Rightarrow> string" where
  "client_ip r =
     (let ip = RemoteAddr r
      in if X_Forwarded_For r \<noteq> '''' then X_Forwarded_For r else ip)"

text \<open>
  The handler that \<open>RateLimitMiddleware(next)\<close> returns: \<open>limiter :=
  limiter.GetLimiter(ip); if !limiter.Allow() { http.Error(w, "Rate limit exceeded",
  http.StatusTooManyRequests); return }; next.ServeHTTP(w, r)\<close>. The wrapped handler
  \<open>next\<close> is a parameter; \<open>t_seen\<close> and \<open>t_allow\<close> are the clock readings inside
  \<open>GetLimiter\<close> and inside \<open>Allow\<close>. The goroutine that the middleware starts for the
  periodic sweep runs beside the handler and is not part of it.
\<close>

definition RateLimitMiddleware ::
  "(request \<Rightarrow> world \<Rightarrow> failure + (response \<times> world)) \<Rightarrow>
   request \<Rightarrow> int \<Rightarrow> int \<Rightarrow> world \<Rightarrow> failure + (response \<times> world)" where
  "RateLimitMiddleware next r t_seen t_allow w =
     (case GetLimiter (heap w) (world.limiter w) t_seen (client_ip r) of Inl e \<Rightarrow> Inl e
      | Inr (l, h1, rl1) \<Rightarrow>
          let (ok, h2) = Allow_at l h1 t_allow;
              w1 = w\<lparr>heap := h2, world.limiter := rl1\<rparr>
          in if \<not> ok then Inr (http_Error ''Rate limit exceeded'' StatusTooManyRequests, w1)
             else next r w1)"

text \<open>
  Lines 97 to 103 of the handler on their own, from the \<open>Allow()\<close> test on: \<open>l\<close> is
  the pointer that \<open>GetLimiter\<close> returned and \<open>w\<close> the state in which \<open>Allow()\<close> is
  called. \<open>if !limiter.Allow() { http.Error(w, "Rate limit exceeded",
  http.StatusTooManyRequests); return }; next.ServeHTTP(w, r)\<close>.
\<close>

definition allow_or_reject ::
  "(request \<Rightarrow> world \<Rightarrow> failure + (response \<times> world)) \<Rightarrow>
   request \<Rightarrow> nat \<Rightarrow> int \<Rightarrow> world \<Rightarrow> failure + (response \<times> world)" where
  "allow_or_reject next r l t_allow w =
     (let (ok, h2) = Allow_at l (heap w) t_allow;
          w1 = w\<lparr>heap := h2\<rparr>
      in if \<not> ok then Inr (http_Error ''Rate limit exceeded'' StatusTooManyRequests, w1)
         else next r w1)"

section \<open>Example states\<close>

text \<open>
  The heap after a program has built a registry with \<open>NewIPRateLimiter(1, 5)\<close>, added
  the client \<open>10.0.0.1\<close> with \<open>AddClient\<close> and called \<open>Allow()\<close> five times on the bucket at
  time 0; a request of that client; and a wrapped handler that answers 200.
\<close>

definition drained_heap :: heap where
  "drained_heap =
     \<lparr>cells = (cells empty_heap)
                (0 := \<lparr>TokenBucket.rate = 1, burst = 5, tokens = 0, last_refill = 0\<rparr>),
      next_free = 1\<rparr>"

definition probe :: request where
  "probe = \<lparr>RemoteAddr = ''10.0.0.1'', X_Forwarded_For = ''''\<rparr>"

definition ok_handler :: "request \<Rightarrow> world \<Rightarrow> failure + (response \<times> world)" where
  "ok_handler r w = Inr (Response 200 ''OK'', w)"

section \<open>Properties of the store\<close>

lemma fold_append_keys:
  "fold (\<lambda>(k, _) keys. keys @ [k]) xs acc = acc @ map fst xs"
  by (induction xs arbitrary: acc) (auto split: prod.splits)

lemma Set_free:
  fixes db :: LunarDB
  shows "LunarDB.mu db = unlocked \<Longrightarrow>
    Set db key val = Inr (db\<lparr>data := DAList.update key val (data db)\<rparr>)"
  by (simp add: Set_def Lock_def Unlock_def unlocked_def Let_def)

lemma Get_free:
  fixes db :: LunarDB
  shows "\<not> writer (LunarDB.mu db) \<Longrightarrow> Get db key = Inr (index2 (data db) key, db)"
  by (simp add: Get_def RLock_def RUnlock_def Let_def)

lemma Del_free:
  fixes db :: LunarDB
  shows "LunarDB.mu db = unlocked \<Longrightarrow>
    Del db key =
      Inr (DAList.lookup (data db) key \<noteq> None,
           if DAList.lookup (data db) key \<noteq> None
           then db\<lparr>data := DAList.delete key (data db)\<rparr> else db)"
  by (auto simp: Del_def Lock_def Unlock_def unlocked_def Let_def index2_def
           split: option.splits)

lemma Keys_free:
  fixes db :: LunarDB
  shows "\<not> writer (LunarDB.mu db) \<Longrightarrow>
    Keys db = Inr (map fst (DAList.impl_of (data db)), db)"
  by (simp add: Keys_def RLock_def RUnlock_def Let_def fold_append_keys)

lemma set_keys_dom:
  "set (map fst (DAList.impl_of m)) = dom (DAList.lookup m)"
  by (simp add: DAList.lookup.rep_eq dom_map_of_conv_image_fst)

lemma index2_update:
  "index2 (DAList.update k v m) k = (v, True)"
  by (simp add: index2_def)

lemma found_iff_dom:
  fixes db :: LunarDB
  assumes "\<not> writer (LunarDB.mu db)"
  shows "(\<exists>v. Get db k = Inr ((v, True), db)) \<longleftrightarrow> k \<in> dom (DAList.lookup (data db))"
  using assms by (auto simp: Get_free index2_def split: option.splits)

text \<open>
  Claim C3. For every store whose lock is free, every key \<open>k\<close> and value \<open>v\<close>: \<open>Set\<close>
  returns and \<open>Get(k)\<close> right after it returns \<open>(v, true)\<close>; \<open>Del\<close> returns and \<open>Get(k)\<close>
  right after it returns \<open>("", false)\<close>; \<open>Del(k)\<close> answers true exactly when \<open>k\<close> was
  present; when it answers false the store is unchanged; and a second \<open>Del(k)\<close> in a
  row answers false and changes nothing.
\<close>

theorem store_round_trip:
  fixes db :: LunarDB
  assumes free: "LunarDB.mu db = unlocked"
  shows "\<exists>db1 db2 existed.
           Set db k v = Inr db1 \<and> Get db1 k = Inr ((v, True), db1) \<and>
           Del db k = Inr (existed, db2) \<and> Get db2 k = Inr (('''', False), db2) \<and>
           (existed \<longleftrightarrow> DAList.lookup (data db) k \<noteq> None) \<and>
           (\<not> existed \<longrightarrow> db2 = db) \<and>
           Del db2 k = Inr (False, db2)"
proof -
  let ?db1 = "db\<lparr>data := DAList.update k v (data db)\<rparr>"
  let ?ex = "DAList.lookup (data db) k \<noteq> None"
  let ?db2 = "if ?ex then db\<lparr>data := DAList.delete k (data db)\<rparr> else db"
  have nw: "\<not> writer (LunarDB.mu db)"
    using free by (simp add: unlocked_def)
  have s: "Set db k v = Inr ?db1"
    using free by (rule Set_free)
  have g1: "Get ?db1 k = Inr ((v, True), ?db1)"
    using nw by (simp add: Get_free index2_update)
  have d: "Del db k = Inr (?ex, ?db2)"
    using free by (rule Del_free)
  have free2: "LunarDB.mu ?db2 = unlocked"
    using free by simp
  have absent: "DAList.lookup (data ?db2) k = None"
    by simp
  have g2: "Get ?db2 k = Inr (('''', False), ?db2)"
    using nw absent by (simp add: Get_free index2_def)
  have d2: "Del ?db2 k = Inr (False, ?db2)"
    using Del_free [OF free2, of k] absent by simp
  have unchanged: "\<not> ?ex \<longrightarrow> ?db2 = db"
    by simp
  from s g1 d g2 d2 unchanged show ?thesis
    by blast
qed

theorem store_round_trip_witness:
  "LunarDB.mu \<lparr>data = DAList.update ''a'' ''0'' DAList.empty, mu = unlocked\<rparr> = unlocked \<and>
   (\<exists>db1 db2 existed.
      Set \<lparr>data = DAList.update ''a'' ''0'' DAList.empty, mu = unlocked\<rparr> ''a'' ''1'' = Inr db1 \<and>
      Get db1 ''a'' = Inr ((''1'', True), db1) \<and>
      Del \<lparr>data = DAList.update ''a'' ''0'' DAList.empty, mu = unlocked\<rparr> ''a'' = Inr (existed, db2) \<and>
      Get db2 ''a'' = Inr (('''', False), db2) \<and>
      existed \<and> Del db2 ''a'' = Inr (False, db2))"
  using store_round_trip
    [of "\<lparr>data = DAList.update ''a'' ''0'' DAList.empty, mu = unlocked\<rparr>" "''a''" "''1''"]
  by simp blast

text \<open>
  Claim C6. For every store that no writer holds, \<open>Keys()\<close> returns a list without
  duplicates whose elements are exactly the keys that \<open>Get\<close> finds, and leaves the
  store as it was; and from the empty store, after \<open>Set("a","1")\<close>, \<open>Set("b","2")\<close>,
  \<open>Del("a")\<close> it returns exactly the key \<open>"b"\<close>.
\<close>

theorem Keys_exact:
  fixes db :: LunarDB
  shows "(\<not> writer (LunarDB.mu db) \<longrightarrow>
            (\<exists>ks. Keys db = Inr (ks, db) \<and> distinct ks \<and>
                  (\<forall>k. k \<in> set ks \<longleftrightarrow> (\<exists>v. Get db k = Inr ((v, True), db))))) \<and>
         (\<exists>db1 db2 db3 existed.
            Set NewLunarDB ''a'' ''1'' = Inr db1 \<and> Set db1 ''b'' ''2'' = Inr db2 \<and>
            Del db2 ''a'' = Inr (existed, db3) \<and> Keys db3 = Inr ([''b''], db3))"
proof (intro conjI impI)
  assume nw: "\<not> writer (LunarDB.mu db)"
  have "distinct (map fst (DAList.impl_of (data db)))"
    by simp
  moreover have "\<forall>k. k \<in> set (map fst (DAList.impl_of (data db))) \<longleftrightarrow>
                     (\<exists>v. Get db k = Inr ((v, True), db))"
    using found_iff_dom [OF nw] set_keys_dom [of "data db"] by blast
  ultimately show "\<exists>ks. Keys db = Inr (ks, db) \<and> distinct ks \<and>
                    (\<forall>k. k \<in> set ks \<longleftrightarrow> (\<exists>v. Get db k = Inr ((v, True), db)))"
    using Keys_free [OF nw] by blast
next
  let ?db1 = "NewLunarDB\<lparr>data := DAList.update ''a'' ''1'' DAList.empty\<rparr>"
  let ?db2 = "NewLunarDB\<lparr>data :=
                 DAList.update ''b'' ''2'' (DAList.update ''a'' ''1'' DAList.empty)\<rparr>"
  let ?db3 = "NewLunarDB\<lparr>data := DAList.delete ''a''
                 (DAList.update ''b'' ''2'' (DAList.update ''a'' ''1'' DAList.empty))\<rparr>"
  have s1: "Set NewLunarDB ''a'' ''1'' = Inr ?db1"
    by (simp add: Set_free NewLunarDB_def)
  have s2: "Set ?db1 ''b'' ''2'' = Inr ?db2"
    by (simp add: Set_free NewLunarDB_def)
  have d: "Del ?db2 ''a'' = Inr (True, ?db3)"
    by (simp add: Del_free NewLunarDB_def DAList.lookup_update)
  have k: "Keys ?db3 = Inr ([''b''], ?db3)"
    by (simp add: Keys_free NewLunarDB_def unlocked_def DAList.delete.rep_eq
          DAList.update.rep_eq DAList.empty.rep_eq)
  from s1 s2 d k show "\<exists>db1 db2 db3 existed.
            Set NewLunarDB ''a'' ''1'' = Inr db1 \<and> Set db1 ''b'' ''2'' = Inr db2 \<and>
            Del db2 ''a'' = Inr (existed, db3) \<and> Keys db3 = Inr ([''b''], db3)"
    by blast
qed

theorem Keys_exact_witness:
  "\<not> writer (LunarDB.mu \<lparr>data = DAList.update ''k'' ''v'' DAList.empty, mu = unlocked\<rparr>) \<and>
   (\<exists>ks. Keys \<lparr>data = DAList.update ''k'' ''v'' DAList.empty, mu = unlocked\<rparr> =
            Inr (ks, \<lparr>data = DAList.update ''k'' ''v'' DAList.empty, mu = unlocked\<rparr>) \<and>
          distinct ks \<and>
          (\<forall>k. k \<in> set ks \<longleftrightarrow>
               (\<exists>v. Get \<lparr>data = DAList.update ''k'' ''v'' DAList.empty, mu = unlocked\<rparr> k =
                  Inr ((v, True),
                       \<lparr>data = DAList.update ''k'' ''v'' DAList.empty, mu = unlocked\<rparr>))))"
  using Keys_exact [of "\<lparr>data = DAList.update ''k'' ''v'' DAList.empty, mu = unlocked\<rparr>"]
  by (simp add: unlocked_def)

text \<open>
  Claim C10. \<open>Get\<close> and \<open>Keys\<close> are read-only: on every store that no writer holds,
  every sequence of \<open>Get\<close> and \<open>Keys\<close> calls returns one result per call and leaves the
  store, its mapping included, identical to the store before the calls.
\<close>

theorem read_calls_frame:
  fixes db :: LunarDB
  assumes "\<not> writer (LunarDB.mu db)"
  shows "\<exists>rs. read_calls db cs = Inr (rs, db) \<and> length rs = length cs"
proof (induction cs)
  case Nil
  show ?case by simp
next
  case (Cons c cs)
  then obtain rs where rs: "read_calls db cs = Inr (rs, db)" "length rs = length cs"
    by blast
  show ?case
  proof (cases c)
    case (Call_Get key)
    with rs assms show ?thesis
      by (simp add: Get_free split: prod.splits)
  next
    case Call_Keys
    with rs assms show ?thesis
      by (simp add: Keys_free)
  qed
qed

theorem read_calls_frame_witness:
  "\<not> writer (LunarDB.mu \<lparr>data = DAList.update ''k'' ''v'' DAList.empty, mu = unlocked\<rparr>) \<and>
   (\<exists>rs. read_calls \<lparr>data = DAList.update ''k'' ''v'' DAList.empty, mu = unlocked\<rparr>
            [Call_Get ''k'', Call_Keys, Call_Get ''z''] =
          Inr (rs, \<lparr>data = DAList.update ''k'' ''v'' DAList.empty, mu = unlocked\<rparr>) \<and>
          length rs = length [Call_Get ''k'', Call_Keys, Call_Get ''z''])"
  using read_calls_frame
    [of "\<lparr>data = DAList.update ''k'' ''v'' DAList.empty, mu = unlocked\<rparr>"
        "[Call_Get ''k'', Call_Keys, Call_Get ''z'']"]
  by (simp add: unlocked_def)

section \<open>Properties of the registry\<close>

lemma AddClient_free:
  "IPRateLimiter.mu rl = unlocked \<Longrightarrow>
   AddClient h rl now ip =
     Inr (next_free h,
          snd (alloc_Limiter (IPRateLimiter.rate rl) (IPRateLimiter.burst rl) h),
          rl\<lparr>clients :=
               DAList.update ip \<lparr>Client.limiter = next_free h, lastSeen = now\<rparr> (clients rl)\<rparr>)"
  by (simp add: AddClient_def alloc_Limiter_def Lock_def Unlock_def unlocked_def Let_def)

lemma AddClient_held:
  "writer (IPRateLimiter.mu rl) \<Longrightarrow> AddClient h rl now ip = Inl Blocks_forever"
  by (simp add: AddClient_def alloc_Limiter_def Lock_def Let_def)

lemma AddClient_bucket:
  "IPRateLimiter.mu rl = unlocked \<Longrightarrow>
   \<exists>l h1 rl1. AddClient h rl now ip = Inr (l, h1, rl1) \<and>
      cells h1 l = NewLimiter (IPRateLimiter.rate rl) (IPRateLimiter.burst rl) \<and>
      DAList.lookup (clients rl1) ip = Some \<lparr>Client.limiter = l, lastSeen = now\<rparr> \<and>
      IPRateLimiter.mu rl1 = unlocked"
  by (simp add: AddClient_free alloc_Limiter_def)

lemma GetLimiter_absent:
  "IPRateLimiter.mu rl = unlocked \<Longrightarrow> DAList.lookup (clients rl) ip = None \<Longrightarrow>
   GetLimiter h rl now ip = Inl Blocks_forever"
  by (simp add: GetLimiter_def Lock_def unlocked_def Let_def AddClient_held)

lemma GetLimiter_present:
  "IPRateLimiter.mu rl = unlocked \<Longrightarrow> DAList.lookup (clients rl) ip = Some c \<Longrightarrow>
   GetLimiter h rl now ip =
     Inr (Client.limiter c, h,
          rl\<lparr>clients := DAList.update ip (c\<lparr>lastSeen := now\<rparr>) (clients rl)\<rparr>)"
  by (simp add: GetLimiter_def Lock_def Unlock_def unlocked_def Let_def)

lemma GetLimiter_no_fatal:
  "GetLimiter h rl now ip \<noteq> Inl Fatal_error"
  by (auto simp: GetLimiter_def AddClient_def alloc_Limiter_def Lock_def Unlock_def Let_def
           split: option.splits)

lemma RateLimitMiddleware_present:
  assumes "IPRateLimiter.mu (world.limiter w) = unlocked"
    and "DAList.lookup (clients (world.limiter w)) (client_ip r) = Some c"
  shows "RateLimitMiddleware next r t_seen t_allow w =
     (let w1 = w\<lparr>heap := (heap w)\<lparr>cells := (cells (heap w))
                     (Client.limiter c := snd (Allow (cells (heap w) (Client.limiter c)) t_allow))\<rparr>,
                 world.limiter := (world.limiter w)\<lparr>clients :=
                     DAList.update (client_ip r) (c\<lparr>lastSeen := t_seen\<rparr>)
                       (clients (world.limiter w))\<rparr>\<rparr>
      in if fst (Allow (cells (heap w) (Client.limiter c)) t_allow) then next r w1
         else Inr (http_Error ''Rate limit exceeded'' StatusTooManyRequests, w1))"
  using assms
  by (simp add: RateLimitMiddleware_def GetLimiter_present Allow_at_def case_prod_beta Let_def)

lemma RateLimitMiddleware_absent:
  assumes "IPRateLimiter.mu (world.limiter w) = unlocked"
    and "DAList.lookup (clients (world.limiter w)) (client_ip r) = None"
  shows "RateLimitMiddleware next r t_seen t_allow w = Inl Blocks_forever"
  using assms by (simp add: RateLimitMiddleware_def GetLimiter_absent)

text \<open>
  Claim C1 says that \<open>GetLimiter\<close> completes and returns a bucket for every identity,
  also on the first-time path that creates the bucket while the registry lock is
  held. The code does not: on a registry as \<open>NewIPRateLimiter\<close> builds it,
  \<open>GetLimiter\<close> takes the lock, finds no entry and calls \<open>AddClient\<close>, which asks for
  the same lock; the mutex is not reentrant, so the call never returns, for every
  identity, rate, burst and clock reading. The first request that reaches the
  middleware of a freshly started server is therefore never answered.
\<close>

theorem GetLimiter_first_sight_never_returns:
  "GetLimiter h (NewIPRateLimiter r b) now ip = Inl Blocks_forever \<and>
   RateLimitMiddleware next req t_seen t_allow initial_world = Inl Blocks_forever"
proof
  show "GetLimiter h (NewIPRateLimiter r b) now ip = Inl Blocks_forever"
    by (rule GetLimiter_absent) (simp_all add: NewIPRateLimiter_def)
next
  show "RateLimitMiddleware next req t_seen t_allow initial_world = Inl Blocks_forever"
    by (rule RateLimitMiddleware_absent) (simp_all add: initial_world_def NewIPRateLimiter_def)
qed

lemma at_most_one_entry:
  "length (filter (\<lambda>e. fst e = k) (DAList.impl_of m)) \<le> 1"
proof -
  have "distinct (map fst xs) \<Longrightarrow> length (filter (\<lambda>e. fst e = k) xs) \<le> 1"
    for xs :: "('a \<times> 'b) list"
  proof (induction xs)
    case Nil
    show ?case by simp
  next
    case (Cons x xs)
    show ?case
    proof (cases "fst x = k")
      case True
      with Cons.prems have "k \<notin> fst ` set xs" by auto
      then have "filter (\<lambda>e. fst e = k) xs = []"
        by (auto simp: filter_empty_conv)
      with True show ?thesis by simp
    next
      case False
      with Cons show ?thesis by simp
    qed
  qed
  then show ?thesis by simp
qed

text \<open>
  Claim C2 says that two consecutive \<open>GetLimiter\<close> calls for an identity return the
  same bucket instance and that the registry never holds more than one entry for an
  identity. On the code: when the identity has an entry (here one made by
  \<open>AddClient\<close>), both calls return the pointer that the entry holds, the heap is not
  touched and the registry holds exactly one entry for the identity; no registry
  value holds two entries for one identity; but when the identity has no entry the
  first call never returns, so no instance is returned at all.
\<close>

theorem GetLimiter_twice:
  "(\<exists>l h1 rl1 rl2 rl3.
      AddClient h (NewIPRateLimiter r b) t0 ip = Inr (l, h1, rl1) \<and>
      GetLimiter h1 rl1 t1 ip = Inr (l, h1, rl2) \<and>
      GetLimiter h1 rl2 t2 ip = Inr (l, h1, rl3) \<and>
      length (filter (\<lambda>e. fst e = ip) (DAList.impl_of (clients rl3))) = 1) \<and>
   length (filter (\<lambda>e. fst e = ip) (DAList.impl_of (clients rl))) \<le> 1 \<and>
   (\<forall>res. GetLimiter h (NewIPRateLimiter r b) t1 ip \<noteq> Inr res)"
proof (intro conjI)
  let ?rl0 = "NewIPRateLimiter r b"
  let ?l = "next_free h"
  let ?h1 = "snd (alloc_Limiter (IPRateLimiter.rate ?rl0) (IPRateLimiter.burst ?rl0) h)"
  let ?rl1 = "?rl0\<lparr>clients :=
                DAList.update ip \<lparr>Client.limiter = ?l, lastSeen = t0\<rparr> (clients ?rl0)\<rparr>"
  let ?rl2 = "?rl1\<lparr>clients :=
                DAList.update ip \<lparr>Client.limiter = ?l, lastSeen = t1\<rparr> (clients ?rl1)\<rparr>"
  let ?rl3 = "?rl2\<lparr>clients :=
                DAList.update ip \<lparr>Client.limiter = ?l, lastSeen = t2\<rparr> (clients ?rl2)\<rparr>"
  have free: "IPRateLimiter.mu ?rl0 = unlocked"
    by (simp add: NewIPRateLimiter_def)
  have a: "AddClient h ?rl0 t0 ip = Inr (?l, ?h1, ?rl1)"
    using free by (rule AddClient_free)
  have g1: "GetLimiter ?h1 ?rl1 t1 ip = Inr (?l, ?h1, ?rl2)"
    using GetLimiter_present [of ?rl1 ip "\<lparr>Client.limiter = ?l, lastSeen = t0\<rparr>" ?h1 t1] free
    by simp
  have g2: "GetLimiter ?h1 ?rl2 t2 ip = Inr (?l, ?h1, ?rl3)"
    using GetLimiter_present [of ?rl2 ip "\<lparr>Client.limiter = ?l, lastSeen = t1\<rparr>" ?h1 t2] free
    by simp
  have "length (filter (\<lambda>e. fst e = ip) (DAList.impl_of (clients ?rl3))) = 1"
    by (simp add: DAList.update.rep_eq DAList.empty.rep_eq NewIPRateLimiter_def)
  with a g1 g2 show "\<exists>l h1 rl1 rl2 rl3.
      AddClient h ?rl0 t0 ip = Inr (l, h1, rl1) \<and>
      GetLimiter h1 rl1 t1 ip = Inr (l, h1, rl2) \<and>
      GetLimiter h1 rl2 t2 ip = Inr (l, h1, rl3) \<and>
      length (filter (\<lambda>e. fst e = ip) (DAList.impl_of (clients rl3))) = 1"
    by blast
next
  show "length (filter (\<lambda>e. fst e = ip) (DAList.impl_of (clients rl))) \<le> 1"
    by (rule at_most_one_entry)
next
  have "GetLimiter h (NewIPRateLimiter r b) t1 ip = Inl Blocks_forever"
    by (rule GetLimiter_absent) (simp_all add: NewIPRateLimiter_def)
  then show "\<forall>res. GetLimiter h (NewIPRateLimiter r b) t1 ip \<noteq> Inr res"
    by simp
qed

subsection \<open>The sweep\<close>

lemma sweep_fold_lookup:
  "distinct (map fst xs) \<Longrightarrow>
   DAList.lookup (fold (sweep_step now_at expiry) xs m) ip =
     (case map_of xs ip of
        None \<Rightarrow> DAList.lookup m ip
      | Some c \<Rightarrow> if now_at ip - lastSeen c > expiry then None else DAList.lookup m ip)"
proof (induction xs arbitrary: m)
  case Nil
  show ?case by simp
next
  case (Cons x xs)
  obtain k c where x: "x = (k, c)" by (cases x)
  from Cons.prems x have k: "map_of xs k = None" and d: "distinct (map fst xs)"
    by (auto simp: map_of_eq_None_iff)
  show ?case
    using Cons.IH [OF d] k x
    by (auto simp: sweep_step_def split: option.splits)
qed

lemma CleanupStaleClients_free:
  "IPRateLimiter.mu rl = unlocked \<Longrightarrow>
   CleanupStaleClients rl now_at =
     Inr (rl\<lparr>clients := fold (sweep_step now_at (expiration rl))
                            (DAList.impl_of (clients rl)) (clients rl)\<rparr>)"
  by (simp add: CleanupStaleClients_def Lock_def Unlock_def unlocked_def Let_def)

lemma sweep_lookup:
  "DAList.lookup (fold (sweep_step now_at expiry) (DAList.impl_of m) m) ip =
     (case DAList.lookup m ip of
        None \<Rightarrow> None
      | Some c \<Rightarrow> if lastSeen c < now_at ip - expiry then None else Some c)"
proof -
  have "DAList.lookup (fold (sweep_step now_at expiry) (DAList.impl_of m) m) ip =
     (case map_of (DAList.impl_of m) ip of
        None \<Rightarrow> DAList.lookup m ip
      | Some c \<Rightarrow> if now_at ip - lastSeen c > expiry then None else DAList.lookup m ip)"
    by (rule sweep_fold_lookup) simp
  moreover have "map_of (DAList.impl_of m) ip = DAList.lookup m ip"
    by (simp add: DAList.lookup.rep_eq)
  ultimately show ?thesis
    by (auto split: option.splits)
qed

lemma impl_of_singleton:
  "DAList.impl_of (DAList.update k v DAList.empty) = [(k, v)]"
  by (simp add: DAList.update.rep_eq DAList.empty.rep_eq)

text \<open>
  Claim C5. Called with the lock free, \<open>CleanupStaleClients\<close> returns; afterwards an
  identity has an entry exactly when it had one whose last-seen timestamp is not older
  than the clock reading minus the expiration, that entry is the same value (the same
  bucket pointer and timestamp), and nothing else of the registry has changed. The
  expiration that \<open>NewIPRateLimiter\<close> sets is one hour; an entry created at \<open>T0\<close> and
  not accessed again survives a sweep at \<open>T0\<close> + 59 min, which changes nothing, and is
  removed by a sweep at \<open>T0\<close> + 61 min.
\<close>

theorem CleanupStaleClients_exact:
  "(IPRateLimiter.mu rl = unlocked \<longrightarrow>
      (\<exists>rl'. CleanupStaleClients rl now_at = Inr rl' \<and>
             rl' = rl\<lparr>clients := clients rl'\<rparr> \<and>
             (\<forall>ip. DAList.lookup (clients rl') ip =
                (case DAList.lookup (clients rl) ip of
                   None \<Rightarrow> None
                 | Some c \<Rightarrow> if lastSeen c < now_at ip - expiration rl then None else Some c)))) \<and>
   expiration (NewIPRateLimiter r b) = Hour \<and>
   (\<exists>l h1 rl1 rl2.
      AddClient h (NewIPRateLimiter r b) T0 ip = Inr (l, h1, rl1) \<and>
      DAList.lookup (clients rl1) ip = Some \<lparr>Client.limiter = l, lastSeen = T0\<rparr> \<and>
      CleanupStaleClients rl1 (\<lambda>_. T0 + 59 * Minute) = Inr rl1 \<and>
      CleanupStaleClients rl1 (\<lambda>_. T0 + 61 * Minute) = Inr rl2 \<and>
      DAList.lookup (clients rl2) ip = None)"
proof (intro conjI impI)
  assume free: "IPRateLimiter.mu rl = unlocked"
  let ?rl' = "rl\<lparr>clients := fold (sweep_step now_at (expiration rl))
                            (DAList.impl_of (clients rl)) (clients rl)\<rparr>"
  have "CleanupStaleClients rl now_at = Inr ?rl'"
    using free by (rule CleanupStaleClients_free)
  moreover have "?rl' = rl\<lparr>clients := clients ?rl'\<rparr>"
    by simp
  moreover have "\<forall>ip. DAList.lookup (clients ?rl') ip =
                (case DAList.lookup (clients rl) ip of
                   None \<Rightarrow> None
                 | Some c \<Rightarrow> if lastSeen c < now_at ip - expiration rl then None else Some c)"
    by (simp add: sweep_lookup)
  ultimately show "\<exists>rl'. CleanupStaleClients rl now_at = Inr rl' \<and>
             rl' = rl\<lparr>clients := clients rl'\<rparr> \<and>
             (\<forall>ip. DAList.lookup (clients rl') ip =
                (case DAList.lookup (clients rl) ip of
                   None \<Rightarrow> None
                 | Some c \<Rightarrow> if lastSeen c < now_at ip - expiration rl then None else Some c))"
    by blast
next
  show "expiration (NewIPRateLimiter r b) = Hour"
    by (simp add: NewIPRateLimiter_def)
next
  let ?rl0 = "NewIPRateLimiter r b"
  let ?l = "next_free h"
  let ?h1 = "snd (alloc_Limiter (IPRateLimiter.rate ?rl0) (IPRateLimiter.burst ?rl0) h)"
  let ?rl1 = "?rl0\<lparr>clients :=
                DAList.update ip \<lparr>Client.limiter = ?l, lastSeen = T0\<rparr> (clients ?rl0)\<rparr>"
  let ?rl2 = "?rl1\<lparr>clients := DAList.delete ip (clients ?rl1)\<rparr>"
  have free: "IPRateLimiter.mu ?rl0 = unlocked"
    by (simp add: NewIPRateLimiter_def)
  have cl0: "clients ?rl0 = DAList.empty"
    by (simp add: NewIPRateLimiter_def)
  have ex0: "expiration ?rl0 = 60 * Minute"
    by (simp add: NewIPRateLimiter_def Hour_def Minute_def)
  have a: "AddClient h ?rl0 T0 ip = Inr (?l, ?h1, ?rl1)"
    using free by (rule AddClient_free)
  have e: "DAList.lookup (clients ?rl1) ip = Some \<lparr>Client.limiter = ?l, lastSeen = T0\<rparr>"
    by simp
  have c59: "CleanupStaleClients ?rl1 (\<lambda>_. T0 + 59 * Minute) = Inr ?rl1"
    using free
    by (simp add: CleanupStaleClients_free cl0 ex0 impl_of_singleton sweep_step_def Minute_def)
  have c61: "CleanupStaleClients ?rl1 (\<lambda>_. T0 + 61 * Minute) = Inr ?rl2"
    using free
    by (simp add: CleanupStaleClients_free cl0 ex0 impl_of_singleton sweep_step_def Minute_def)
  have gone: "DAList.lookup (clients ?rl2) ip = None"
    by simp
  from a e c59 c61 gone show "\<exists>l h1 rl1 rl2.
      AddClient h ?rl0 T0 ip = Inr (l, h1, rl1) \<and>
      DAList.lookup (clients rl1) ip = Some \<lparr>Client.limiter = l, lastSeen = T0\<rparr> \<and>
      CleanupStaleClients rl1 (\<lambda>_. T0 + 59 * Minute) = Inr rl1 \<and>
      CleanupStaleClients rl1 (\<lambda>_. T0 + 61 * Minute) = Inr rl2 \<and>
      DAList.lookup (clients rl2) ip = None"
    by blast
qed

theorem CleanupStaleClients_exact_witness:
  "IPRateLimiter.mu ((NewIPRateLimiter 1 5)
      \<lparr>clients := DAList.update ''10.0.0.1'' \<lparr>Client.limiter = 0, lastSeen = 0\<rparr>
                    (DAList.update ''10.0.0.2'' \<lparr>Client.limiter = 1, lastSeen = Hour\<rparr> DAList.empty)\<rparr>)
     = unlocked \<and>
   (\<exists>rl'. CleanupStaleClients ((NewIPRateLimiter 1 5)
      \<lparr>clients := DAList.update ''10.0.0.1'' \<lparr>Client.limiter = 0, lastSeen = 0\<rparr>
                    (DAList.update ''10.0.0.2'' \<lparr>Client.limiter = 1, lastSeen = Hour\<rparr> DAList.empty)\<rparr>)
        (\<lambda>_. Hour + Minute) = Inr rl' \<and>
      DAList.lookup (clients rl') ''10.0.0.1'' = None \<and>
      DAList.lookup (clients rl') ''10.0.0.2'' = Some \<lparr>Client.limiter = 1, lastSeen = Hour\<rparr>)"
proof -
  let ?rl = "(NewIPRateLimiter 1 5)
      \<lparr>clients := DAList.update ''10.0.0.1'' \<lparr>Client.limiter = 0, lastSeen = 0\<rparr>
                    (DAList.update ''10.0.0.2'' \<lparr>Client.limiter = 1, lastSeen = Hour\<rparr> DAList.empty)\<rparr>"
  have free: "IPRateLimiter.mu ?rl = unlocked"
    by (simp add: NewIPRateLimiter_def)
  from CleanupStaleClients_exact [of ?rl "\<lambda>_. Hour + Minute"] free
  obtain rl' where c: "CleanupStaleClients ?rl (\<lambda>_. Hour + Minute) = Inr rl'"
    and l: "\<forall>ip. DAList.lookup (clients rl') ip =
                (case DAList.lookup (clients ?rl) ip of
                   None \<Rightarrow> None
                 | Some c \<Rightarrow> if lastSeen c < (Hour + Minute) - expiration ?rl then None else Some c)"
    by blast
  have "DAList.lookup (clients rl') ''10.0.0.1'' = None"
    by (simp add: l DAList.lookup_update NewIPRateLimiter_def Hour_def Minute_def)
  moreover have "DAList.lookup (clients rl') ''10.0.0.2'' = Some \<lparr>Client.limiter = 1, lastSeen = Hour\<rparr>"
    by (simp add: l DAList.lookup_update NewIPRateLimiter_def Hour_def Minute_def)
  ultimately show ?thesis
    using free c by blast
qed

section \<open>Properties of the token bucket\<close>

lemma Allow_fields:
  "TokenBucket.rate (snd (Allow b now)) = TokenBucket.rate b"
  "TokenBucket.burst (snd (Allow b now)) = TokenBucket.burst b"
  "last_refill (snd (Allow b now)) = now"
  by (simp_all add: Allow_def Let_def)

lemma Allow_upper:
  "tokens (snd (Allow b now)) \<le> real_of_int (TokenBucket.burst b)"
  by (auto simp: Allow_def Let_def min_def)

lemma Allow_lower:
  assumes "0 \<le> TokenBucket.rate b" "0 \<le> tokens b" "0 \<le> TokenBucket.burst b"
    and "last_refill b \<le> now"
  shows "0 \<le> tokens (snd (Allow b now))"
proof -
  have "0 \<le> TokenBucket.rate b * (real_of_int (now - last_refill b) / 1000000000)"
    using assms by simp
  with assms show ?thesis
    by (simp add: Allow_def Let_def)
qed

text \<open>
  Claim C7. For a bucket with a rate that is not negative, whose token count lies
  between 0 and its burst, and for every sequence of \<open>Allow()\<close> calls made at clock
  readings that do not run backwards: after every call the token count lies between
  0 and the burst, and rate and burst are what they were.
\<close>

theorem tokens_within_bounds:
  assumes "0 \<le> TokenBucket.rate b" and "0 \<le> tokens b"
    and "tokens b \<le> real_of_int (TokenBucket.burst b)"
    and "sorted (last_refill b # ts)"
  shows "\<forall>res \<in> set (Allow_calls b ts).
           0 \<le> tokens (snd res) \<and> tokens (snd res) \<le> real_of_int (TokenBucket.burst b) \<and>
           TokenBucket.burst (snd res) = TokenBucket.burst b \<and>
           TokenBucket.rate (snd res) = TokenBucket.rate b"
  using assms
proof (induction ts arbitrary: b)
  case Nil
  show ?case by simp
next
  case (Cons t ts)
  let ?b1 = "snd (Allow b t)"
  have nb: "0 \<le> TokenBucket.burst b"
    using Cons.prems(2,3) by linarith
  have le: "last_refill b \<le> t"
    using Cons.prems(4) by simp
  have lo: "0 \<le> tokens ?b1"
    using Cons.prems(1,2) nb le by (rule Allow_lower)
  have up: "tokens ?b1 \<le> real_of_int (TokenBucket.burst ?b1)"
    by (simp add: Allow_fields Allow_upper)
  have srt: "sorted (last_refill ?b1 # ts)"
    using Cons.prems(4) by (simp add: Allow_fields)
  have r: "0 \<le> TokenBucket.rate ?b1"
    using Cons.prems(1) by (simp add: Allow_fields)
  have rest: "\<forall>res \<in> set (Allow_calls ?b1 ts).
           0 \<le> tokens (snd res) \<and> tokens (snd res) \<le> real_of_int (TokenBucket.burst ?b1) \<and>
           TokenBucket.burst (snd res) = TokenBucket.burst ?b1 \<and>
           TokenBucket.rate (snd res) = TokenBucket.rate ?b1"
    using r lo up srt by (rule Cons.IH)
  have first: "0 \<le> tokens ?b1 \<and> tokens ?b1 \<le> real_of_int (TokenBucket.burst b) \<and>
           TokenBucket.burst ?b1 = TokenBucket.burst b \<and> TokenBucket.rate ?b1 = TokenBucket.rate b"
    using lo up by (simp add: Allow_fields)
  from first rest show ?case
    by (simp add: Allow_fields)
qed

theorem tokens_within_bounds_witness:
  "0 \<le> TokenBucket.rate (NewLimiter 1 5) \<and> 0 \<le> tokens (NewLimiter 1 5) \<and>
   tokens (NewLimiter 1 5) \<le> real_of_int (TokenBucket.burst (NewLimiter 1 5)) \<and>
   sorted (last_refill (NewLimiter 1 5) # [3, 3, 4 * Second, 4 * Second + 1]) \<and>
   Allow (snd (Allow (NewLimiter 1 5) 3)) 3
     \<in> set (Allow_calls (NewLimiter 1 5) [3, 3, 4 * Second, 4 * Second + 1]) \<and>
   0 \<le> tokens (snd (Allow (snd (Allow (NewLimiter 1 5) 3)) 3)) \<and>
   tokens (snd (Allow (snd (Allow (NewLimiter 1 5) 3)) 3)) \<le> 5"
proof -
  let ?b = "NewLimiter 1 5"
  let ?ts = "[3, 3, 4 * Second, 4 * Second + 1]"
  have h1: "0 \<le> TokenBucket.rate ?b" and h2: "0 \<le> tokens ?b"
    and h3: "tokens ?b \<le> real_of_int (TokenBucket.burst ?b)"
    by (simp_all add: NewLimiter_def)
  have h4: "sorted (last_refill ?b # ?ts)"
    by (simp add: NewLimiter_def Second_def)
  have mem: "Allow (snd (Allow ?b 3)) 3 \<in> set (Allow_calls ?b ?ts)"
    by simp
  have b5: "real_of_int (TokenBucket.burst ?b) = 5"
    by (simp add: NewLimiter_def)
  from tokens_within_bounds [OF h1 h2 h3 h4] mem
  have "0 \<le> tokens (snd (Allow (snd (Allow ?b 3)) 3)) \<and>
        tokens (snd (Allow (snd (Allow ?b 3)) 3)) \<le> real_of_int (TokenBucket.burst ?b)"
    by blast
  with h1 h2 h3 h4 mem show ?thesis
    unfolding b5 by blast
qed

lemma Allow_at_parts:
  "fst (Allow_at l h t) = fst (Allow (cells h l) t)"
  "cells (snd (Allow_at l h t)) l = snd (Allow (cells h l) t)"
  by (simp_all add: Allow_at_def case_prod_beta)

lemma Allow_calls_at_fst:
  "fst (Allow_calls_at l h ts) = map fst (Allow_calls (cells h l) ts)"
  by (induction ts arbitrary: h) (simp_all add: Let_def case_prod_beta Allow_at_parts)

lemma Allow_admit:
  fixes x :: real and s t :: int
  defines "y \<equiv> x + real_of_int (t - s) / 1000000000"
  assumes "y \<le> 5" and "1 \<le> y"
  shows "Allow \<lparr>TokenBucket.rate = 1, burst = 5, tokens = x, last_refill = s\<rparr> t =
         (True, \<lparr>TokenBucket.rate = 1, burst = 5, tokens = y - 1, last_refill = t\<rparr>)"
  using assms by (simp add: Allow_def Let_def)

lemma Allow_admit_full:
  fixes x :: real and s t :: int
  assumes "5 \<le> x + real_of_int (t - s) / 1000000000"
  shows "Allow \<lparr>TokenBucket.rate = 1, burst = 5, tokens = x, last_refill = s\<rparr> t =
         (True, \<lparr>TokenBucket.rate = 1, burst = 5, tokens = 4, last_refill = t\<rparr>)"
  using assms by (simp add: Allow_def Let_def)

lemma Allow_reject:
  fixes x :: real and s t :: int
  defines "y \<equiv> x + real_of_int (t - s) / 1000000000"
  assumes "y < 1"
  shows "Allow \<lparr>TokenBucket.rate = 1, burst = 5, tokens = x, last_refill = s\<rparr> t =
         (False, \<lparr>TokenBucket.rate = 1, burst = 5, tokens = y, last_refill = t\<rparr>)"
  using assms by (simp add: Allow_def Let_def)

lemma Allow_admit_any:
  fixes x :: real and s t :: int
  assumes "1 \<le> x + real_of_int (t - s) / 1000000000"
  shows "fst (Allow \<lparr>TokenBucket.rate = 1, burst = 5, tokens = x, last_refill = s\<rparr> t)"
  using assms by (simp add: Allow_def Let_def)

lemma six_calls:
  assumes "0 \<le> t1" "t1 \<le> t2" "t2 \<le> t3" "t3 \<le> t4" "t4 \<le> t5" "t5 \<le> t6"
    and "t6 < t1 + Second" and "t6 + Second \<le> t7"
  shows "map fst (Allow_calls (NewLimiter 1 5) [t1, t2, t3, t4, t5, t6, t7]) =
         [True, True, True, True, True, False, True]"
proof -
  define d where "d t = real_of_int (t - t1) / 1000000000" for t
  have d0: "0 \<le> d t2" "d t2 \<le> d t3" "d t3 \<le> d t4" "d t4 \<le> d t5" "d t5 \<le> d t6" "d t6 < 1"
    using assms by (simp_all add: d_def Second_def divide_right_mono)
  have diff: "real_of_int (t - s) / 1000000000 = d t - d s" for s t
    by (simp add: d_def diff_divide_distrib)
  have d1: "d t1 = 0"
    by (simp add: d_def)
  have late: "1 \<le> d t7 - d t6"
    using assms(8) by (simp add: diff [symmetric] Second_def)
  let ?B = "\<lambda>x s. \<lparr>TokenBucket.rate = 1, burst = 5, tokens = x, last_refill = s\<rparr>"
  have b0: "NewLimiter 1 5 = ?B 5 0"
    by (simp add: NewLimiter_def)
  have c1: "Allow (?B 5 0) t1 = (True, ?B 4 t1)"
    using assms(1) by (intro Allow_admit_full) simp
  have c2: "Allow (?B 4 t1) t2 = (True, ?B (3 + d t2) t2)"
    using Allow_admit [of 4 t2 t1] d0 by (simp add: d_def)
  have c3: "Allow (?B (3 + d t2) t2) t3 = (True, ?B (2 + d t3) t3)"
    using Allow_admit [of "3 + d t2" t3 t2] d0 by (simp add: d_def field_simps)
  have c4: "Allow (?B (2 + d t3) t3) t4 = (True, ?B (1 + d t4) t4)"
    using Allow_admit [of "2 + d t3" t4 t3] d0 by (simp add: d_def field_simps)
  have c5: "Allow (?B (1 + d t4) t4) t5 = (True, ?B (d t5) t5)"
    using Allow_admit [of "1 + d t4" t5 t4] d0 by (simp add: d_def field_simps)
  have c6: "Allow (?B (d t5) t5) t6 = (False, ?B (d t6) t6)"
    using Allow_reject [of "d t5" t6 t5] d0 by (simp add: d_def field_simps)
  have c7: "fst (Allow (?B (d t6) t6) t7)"
    using Allow_admit_any [of "d t6" t7 t6] d0 late by (simp add: d_def field_simps)
  show ?thesis
    by (simp add: b0 c1 c2 c3 c4 c5 c6 c7)
qed

text \<open>
  Claim C4. The bucket that \<open>AddClient\<close> creates for the global registry (rate 1 per
  second, burst 5) starts full. Six \<open>Allow()\<close> calls on it, back to back within less
  than a second, answer true five times and then false; the next call, a second or
  more after the sixth, answers true.
\<close>

theorem burst_of_five_then_refill:
  assumes "0 \<le> t1" "t1 \<le> t2" "t2 \<le> t3" "t3 \<le> t4" "t4 \<le> t5" "t5 \<le> t6"
    and "t6 < t1 + Second" and "t6 + Second \<le> t7"
  shows "\<exists>l h1 rl1.
           AddClient h (world.limiter initial_world) t0 ip = Inr (l, h1, rl1) \<and>
           cells h1 l = NewLimiter 1 5 \<and>
           fst (Allow_calls_at l h1 [t1, t2, t3, t4, t5, t6, t7]) =
             [True, True, True, True, True, False, True]"
proof -
  have free: "IPRateLimiter.mu (world.limiter initial_world) = unlocked"
    by (simp add: initial_world_def NewIPRateLimiter_def)
  have cfg: "IPRateLimiter.rate (world.limiter initial_world) = 1"
    "IPRateLimiter.burst (world.limiter initial_world) = 5"
    by (simp_all add: initial_world_def NewIPRateLimiter_def)
  from AddClient_bucket [OF free, of h t0 ip] obtain l h1 rl1
    where a: "AddClient h (world.limiter initial_world) t0 ip = Inr (l, h1, rl1)"
      and b: "cells h1 l = NewLimiter 1 5"
    unfolding cfg by blast
  have "fst (Allow_calls_at l h1 [t1, t2, t3, t4, t5, t6, t7]) =
        [True, True, True, True, True, False, True]"
    unfolding Allow_calls_at_fst b using assms by (rule six_calls)
  with a b show ?thesis
    by blast
qed

theorem burst_of_five_then_refill_witness:
  "(0::int) \<le> 7 \<and> (7::int) \<le> 7 \<and> (7::int) \<le> 8 \<and> (8::int) \<le> 8 \<and> (8::int) \<le> 9 \<and> (9::int) \<le> 9 \<and>
   9 < 7 + Second \<and> 9 + Second \<le> 9 + Second \<and>
   (\<exists>l h1 rl1.
      AddClient empty_heap (world.limiter initial_world) 0 ''10.0.0.1'' = Inr (l, h1, rl1) \<and>
      cells h1 l = NewLimiter 1 5 \<and>
      fst (Allow_calls_at l h1 [7, 7, 8, 8, 9, 9, 9 + Second]) =
        [True, True, True, True, True, False, True])"
  using burst_of_five_then_refill [of 7 7 8 8 9 9 "9 + Second" empty_heap 0 "''10.0.0.1''"]
  by (simp add: Second_def)

section \<open>Properties of the admission gate\<close>

lemma client_ip_cases:
  "X_Forwarded_For r \<noteq> '''' \<Longrightarrow> client_ip r = X_Forwarded_For r"
  "X_Forwarded_For r = '''' \<Longrightarrow> client_ip r = RemoteAddr r"
  by (simp_all add: client_ip_def)

lemma RateLimitMiddleware_split:
  "RateLimitMiddleware next r t_seen t_allow w =
     (case GetLimiter (heap w) (world.limiter w) t_seen (client_ip r) of
        Inl e \<Rightarrow> Inl e
      | Inr (l, h1, rl1) \<Rightarrow>
          allow_or_reject next r l t_allow (w\<lparr>heap := h1, world.limiter := rl1\<rparr>))"
proof -
  have swap: "v\<lparr>heap := a, world.limiter := b\<rparr> = v\<lparr>world.limiter := b, heap := a\<rparr>"
    for v :: world and a b
    by simp
  show ?thesis
    by (simp add: RateLimitMiddleware_def allow_or_reject_def Let_def case_prod_beta swap
             split: sum.splits)
qed

lemma Allow_denied:
  assumes "\<not> fst (Allow b t)"
  shows "snd (Allow b t) =
         b\<lparr>tokens := min (real_of_int (TokenBucket.burst b))
                        (tokens b + TokenBucket.rate b *
                           (real_of_int (t - last_refill b) / 1000000000)),
            last_refill := t\<rparr>"
  using assms by (auto simp: Allow_def Let_def split: if_splits)

text \<open>The example heap is one that the exported operations reach.\<close>

lemma drained_heap_reachable:
  "\<exists>h1 rl1. AddClient empty_heap (NewIPRateLimiter 1 5) 0 ''10.0.0.1'' = Inr (0, h1, rl1) \<and>
            Allow_calls_at 0 h1 [0, 0, 0, 0, 0] =
              ([True, True, True, True, True], drained_heap)"
  by (simp add: AddClient_free NewIPRateLimiter_def drained_heap_def
        alloc_Limiter_def empty_heap_def NewLimiter_def Allow_at_def Allow_def Let_def)

text \<open>
  Claim C8. The handler is \<open>GetLimiter\<close> followed by lines 97 to 103. When \<open>Allow()\<close>,
  called on the bucket \<open>l\<close> in the state \<open>w\<close>, answers false, these lines reply 429 with
  the message "Rate limit exceeded", whatever the wrapped handler is, which is not
  called; and the state they leave differs from \<open>w\<close> in the bucket \<open>l\<close> alone, which
  holds its tokens as refilled and the clock reading as its last-refill timestamp:
  the store, the registry and every other bucket are those of \<open>w\<close>.
\<close>

theorem rejection_frame:
  "RateLimitMiddleware next r t_seen t_allow w0 =
     (case GetLimiter (heap w0) (world.limiter w0) t_seen (client_ip r) of
        Inl e \<Rightarrow> Inl e
      | Inr (l', h1, rl1) \<Rightarrow>
          allow_or_reject next r l' t_allow (w0\<lparr>heap := h1, world.limiter := rl1\<rparr>)) \<and>
   (\<not> fst (Allow_at l (heap w) t_allow) \<longrightarrow>
      (\<exists>w'. allow_or_reject next r l t_allow w =
               Inr (http_Error ''Rate limit exceeded'' StatusTooManyRequests, w') \<and>
             (\<forall>next'. allow_or_reject next' r l t_allow w = allow_or_reject next r l t_allow w) \<and>
             db w' = db w \<and>
             world.limiter w' = world.limiter w \<and>
             next_free (heap w') = next_free (heap w) \<and>
             (\<forall>a. a \<noteq> l \<longrightarrow> cells (heap w') a = cells (heap w) a) \<and>
             cells (heap w') l =
               (cells (heap w) l)
                 \<lparr>tokens := min (real_of_int (TokenBucket.burst (cells (heap w) l)))
                    (tokens (cells (heap w) l) + TokenBucket.rate (cells (heap w) l) *
                       (real_of_int (t_allow - last_refill (cells (heap w) l)) / 1000000000)),
                  last_refill := t_allow\<rparr> \<and>
             w' = w\<lparr>heap := (heap w)\<lparr>cells := (cells (heap w))(l := cells (heap w') l)\<rparr>\<rparr>))"
proof (intro conjI impI)
  show "RateLimitMiddleware next r t_seen t_allow w0 =
     (case GetLimiter (heap w0) (world.limiter w0) t_seen (client_ip r) of
        Inl e \<Rightarrow> Inl e
      | Inr (l', h1, rl1) \<Rightarrow>
          allow_or_reject next r l' t_allow (w0\<lparr>heap := h1, world.limiter := rl1\<rparr>))"
    by (rule RateLimitMiddleware_split)
next
  assume "\<not> fst (Allow_at l (heap w) t_allow)"
  then have denied: "\<not> fst (Allow (cells (heap w) l) t_allow)"
    by (simp add: Allow_at_parts)
  let ?b = "snd (Allow (cells (heap w) l) t_allow)"
  let ?w' = "w\<lparr>heap := (heap w)\<lparr>cells := (cells (heap w))(l := ?b)\<rparr>\<rparr>"
  have res: "allow_or_reject n r l t_allow w =
             Inr (http_Error ''Rate limit exceeded'' StatusTooManyRequests, ?w')" for n
    using denied by (simp add: allow_or_reject_def Allow_at_def case_prod_beta Let_def)
  have any: "\<forall>next'. allow_or_reject next' r l t_allow w = allow_or_reject next r l t_allow w"
    by (simp add: res)
  have bucket: "cells (heap ?w') l =
               (cells (heap w) l)
                 \<lparr>tokens := min (real_of_int (TokenBucket.burst (cells (heap w) l)))
                    (tokens (cells (heap w) l) + TokenBucket.rate (cells (heap w) l) *
                       (real_of_int (t_allow - last_refill (cells (heap w) l)) / 1000000000)),
                  last_refill := t_allow\<rparr>"
    using Allow_denied [OF denied] by simp
  have frame: "db ?w' = db w" "world.limiter ?w' = world.limiter w"
    "next_free (heap ?w') = next_free (heap w)"
    "\<forall>a. a \<noteq> l \<longrightarrow> cells (heap ?w') a = cells (heap w) a"
    "?w' = w\<lparr>heap := (heap w)\<lparr>cells := (cells (heap w))(l := cells (heap ?w') l)\<rparr>\<rparr>"
    by simp_all
  from res [of "next"] any bucket frame
  show "\<exists>w'. allow_or_reject next r l t_allow w =
               Inr (http_Error ''Rate limit exceeded'' StatusTooManyRequests, w') \<and>
             (\<forall>next'. allow_or_reject next' r l t_allow w = allow_or_reject next r l t_allow w) \<and>
             db w' = db w \<and>
             world.limiter w' = world.limiter w \<and>
             next_free (heap w') = next_free (heap w) \<and>
             (\<forall>a. a \<noteq> l \<longrightarrow> cells (heap w') a = cells (heap w) a) \<and>
             cells (heap w') l =
               (cells (heap w) l)
                 \<lparr>tokens := min (real_of_int (TokenBucket.burst (cells (heap w) l)))
                    (tokens (cells (heap w) l) + TokenBucket.rate (cells (heap w) l) *
                       (real_of_int (t_allow - last_refill (cells (heap w) l)) / 1000000000)),
                  last_refill := t_allow\<rparr> \<and>
             w' = w\<lparr>heap := (heap w)\<lparr>cells := (cells (heap w))(l := cells (heap w') l)\<rparr>\<rparr>"
    by blast
qed

theorem rejection_frame_witness:
  "\<not> fst (Allow_at 0 (heap (initial_world\<lparr>heap := drained_heap\<rparr>)) 500000000) \<and>
   (\<exists>w'. allow_or_reject ok_handler probe 0 500000000 (initial_world\<lparr>heap := drained_heap\<rparr>) =
            Inr (http_Error ''Rate limit exceeded'' StatusTooManyRequests, w') \<and>
          db w' = NewLunarDB \<and>
          world.limiter w' = NewIPRateLimiter 1 5 \<and>
          next_free (heap w') = 1 \<and>
          cells (heap w') 0 =
            \<lparr>TokenBucket.rate = 1, burst = 5, tokens = 1 / 2, last_refill = 500000000\<rparr>)"
proof -
  let ?w = "initial_world\<lparr>heap := drained_heap\<rparr>"
  have h: "\<not> fst (Allow_at 0 (heap ?w) 500000000)"
    by (simp add: Allow_at_def Allow_def drained_heap_def Let_def)
  from rejection_frame [of ok_handler probe 0 500000000 ?w 0 ?w] h
  obtain w' where r: "allow_or_reject ok_handler probe 0 500000000 ?w =
            Inr (http_Error ''Rate limit exceeded'' StatusTooManyRequests, w')"
    and d: "db w' = db ?w" and l: "world.limiter w' = world.limiter ?w"
    and n: "next_free (heap w') = next_free (heap ?w)"
    and b: "cells (heap w') 0 =
               (cells (heap ?w) 0)
                 \<lparr>tokens := min (real_of_int (TokenBucket.burst (cells (heap ?w) 0)))
                    (tokens (cells (heap ?w) 0) + TokenBucket.rate (cells (heap ?w) 0) *
                       (real_of_int (500000000 - last_refill (cells (heap ?w) 0)) / 1000000000)),
                  last_refill := 500000000\<rparr>"
    by blast
  have d': "db w' = NewLunarDB"
    using d by (simp add: initial_world_def)
  have l': "world.limiter w' = NewIPRateLimiter 1 5"
    using l by (simp add: initial_world_def)
  have n': "next_free (heap w') = 1"
    using n by (simp add: drained_heap_def)
  have b': "cells (heap w') 0 =
            \<lparr>TokenBucket.rate = 1, burst = 5, tokens = 1 / 2, last_refill = 500000000\<rparr>"
    using b by (simp add: drained_heap_def)
  from h r d' l' n' b' show ?thesis
    by blast
qed

text \<open>
  Claim C9 says that the identity is the forwarding header when that is not empty and
  the connection address otherwise, and that an empty or unparseable identity never
  fails the admission path. The handler derives the identity as the claim says and
  never parses it; but on a freshly started server a request whose forwarding header
  is not an address, and a request with no header and an empty address, are never
  answered: the identity has no entry, and \<open>GetLimiter\<close> asks for the lock it holds.
\<close>

theorem degenerate_identity_never_answered:
  "client_ip \<lparr>RemoteAddr = ''10.0.0.1:51234'', X_Forwarded_For = ''not an address''\<rparr> =
     ''not an address'' \<and>
   RateLimitMiddleware next
     \<lparr>RemoteAddr = ''10.0.0.1:51234'', X_Forwarded_For = ''not an address''\<rparr>
     t_seen t_allow initial_world = Inl Blocks_forever \<and>
   client_ip \<lparr>RemoteAddr = '''', X_Forwarded_For = ''''\<rparr> = '''' \<and>
   RateLimitMiddleware next \<lparr>RemoteAddr = '''', X_Forwarded_For = ''''\<rparr>
     t_seen t_allow initial_world = Inl Blocks_forever"
proof -
  have free: "IPRateLimiter.mu (world.limiter initial_world) = unlocked"
    by (simp add: initial_world_def NewIPRateLimiter_def)
  have none: "DAList.lookup (clients (world.limiter initial_world)) ip = None" for ip
    by (simp add: initial_world_def NewIPRateLimiter_def)
  have blocks: "RateLimitMiddleware next r t_seen t_allow initial_world = Inl Blocks_forever"
    for r
    using free none by (rule RateLimitMiddleware_absent)
  have "client_ip \<lparr>RemoteAddr = ''10.0.0.1:51234'', X_Forwarded_For = ''not an address''\<rparr> =
        ''not an address''"
    by (simp add: client_ip_def)
  moreover have "client_ip \<lparr>RemoteAddr = '''', X_Forwarded_For = ''''\<rparr> = ''''"
    by (simp add: client_ip_def)
  ultimately show ?thesis
    using blocks by simp
qed

end
